theory Spec2Isabelle
  imports
    Main
    "HOL-Library.AList"
    "HOL-Library.Char_ord"
    "HOL-Library.List_Lexorder"
begin

section \<open>The enricher of nuclei-parse-enrich (pkg/enricher/main.go)\<close>

text \<open>
  A Go \<open>string\<close> is a sequence of bytes, modelled as \<^typ>\<open>string\<close>; the order of
  \<open>sort.Strings\<close> is the byte-wise lexicographic order, which is the order of
  \<^typ>\<open>char list\<close> here (\<open>Char_ord\<close>, \<open>List_Lexorder\<close>).
\<close>

subsection \<open>Data\<close>

text \<open>
  \<open>types.EnrichInfo\<close>, with the fields \<open>main.go\<close> assigns; all of them are strings
  (they receive the string results of the \<open>enrich...\<close> methods).
\<close>

record EnrichInfo =
  Ip :: string
  Abuse :: string
  Abuse_source :: string
  Prefix :: string
  Asn :: string
  Holder :: string
  City :: string
  Country :: string

text \<open>
  The response structs of package \<open>ripestat\<close>, with the fields \<open>main.go\<close> reads:
  \<open>netInfo.Prefix\<close>, \<open>netInfo.ASNs\<close>, \<open>asOverview.Holder\<close>,
  \<open>geolocation.LocatedResources[0].Locations[0].City\<close> and \<open>.Country\<close>.
  A field whose name \<open>EnrichInfo\<close> already has carries a suffix.
\<close>

record NetworkInfo =
  Prefix_ni :: string
  ASNs :: "string list"

record ASOverview =
  Holder_as :: string

record Location =
  City_loc :: string
  Country_loc :: string

record LocatedResource =
  Locations :: "Location list"

record Geolocation =
  LocatedResources :: "LocatedResource list"

text \<open>A Go \<open>error\<close> value that is not \<open>nil\<close>; it carries its message.\<close>

datatype error = Error string

text \<open>
  The collaborators of the enricher: the four queries of the \<open>ripestat.Client\<close> held in
  \<open>e.rs\<close>, and \<open>whois.Whois\<close>. A Go call returning \<open>(v, err)\<close> is a value of
  \<open>error + 'a\<close>: \<open>Inl err\<close> when \<open>err != nil\<close> (the code never reads \<open>v\<close> then),
  \<open>Inr v\<close> when \<open>err == nil\<close>.

  \<open>rangeOrder\<close> is the choice the Go runtime makes when a \<open>for k := range m\<close> loop
  walks a map: the language leaves the order of the keys open. It is given the keys and
  answers in which order they are visited; see \<open>rangeKeys\<close>.
\<close>

record Collaborators =
  GetAbuseContacts :: "string \<Rightarrow> error + string list"
  GetNetworkInfo :: "string \<Rightarrow> error + NetworkInfo"
  GetASOverview :: "string \<Rightarrow> error + ASOverview"
  GetGeolocationData :: "string \<Rightarrow> error + Geolocation"
  Whois :: "string \<Rightarrow> error + string"
  rangeOrder :: "string list \<Rightarrow> string list"

text \<open>
  The calls made to the collaborators, in the order they are made. Every function below
  returns its result together with the calls it made. (The \<open>logrus\<close> lines are not part
  of the model.)
\<close>

datatype call =
  CallGetAbuseContacts string
  | CallGetNetworkInfo string
  | CallGetASOverview string
  | CallGetGeolocationData string
  | CallWhois string

subsection \<open>Go library functions used by the enricher\<close>

text \<open>\<open>strings.Join(elems, sep)\<close>.\<close>

fun Join :: "string list \<Rightarrow> string \<Rightarrow> string" where
  "Join [] sep = []"
| "Join [x] sep = x"
| "Join (x # y # ys) sep = x @ sep @ Join (y # ys) sep"

text \<open>
  \<open>strings.ToLower\<close> on ASCII text: the letters \<open>A\<close> to \<open>Z\<close> move to \<open>a\<close> to \<open>z\<close>,
  every other byte stays. The enricher applies it to matches of \<open>whoisRegexp\<close> only,
  which consist of ASCII bytes (lemma \<open>whoisRegexp_match_ascii\<close>).
\<close>

definition toLowerByte :: "char \<Rightarrow> char" where
  "toLowerByte c =
     (if CHR ''A'' \<le> c \<and> c \<le> CHR ''Z'' then char_of (of_char c + (32::nat)) else c)"

definition ToLower :: "string \<Rightarrow> string" where
  "ToLower s = map toLowerByte s"

text \<open>
  The regular expressions \<open>whoisRegexp\<close> is built from. \<open>Eps\<close> matches the empty
  text, \<open>Class rs\<close> is a character class given by inclusive ranges, \<open>Opt\<close> and
  \<open>Star\<close> are the greedy \<open>?\<close> and \<open>*\<close>.
\<close>

datatype regex =
  Eps
  | Chr char
  | Class "(char \<times> char) list"
  | Cat regex regex
  | Opt regex
  | Star regex

definition inClass :: "(char \<times> char) list \<Rightarrow> char \<Rightarrow> bool" where
  "inClass rs c = list_ex (\<lambda>(lo, hi). lo \<le> c \<and> c \<le> hi) rs"

text \<open>\<open>x+\<close> is \<open>xx*\<close>, and \<open>x{0,n}\<close> is \<open>(x(x(...)?)?)?\<close>, \<open>n\<close> deep, as package
  \<open>regexp/syntax\<close> simplifies them.\<close>

definition Plus :: "regex \<Rightarrow> regex" where
  "Plus r = Cat r (Star r)"

fun UpTo :: "nat \<Rightarrow> regex \<Rightarrow> regex" where
  "UpTo 0 r = Eps"
| "UpTo (Suc n) r = Opt (Cat r (UpTo n r))"

text \<open>
  \<open>ends r s\<close> lists what is left of \<open>s\<close> after each way \<open>r\<close> can match a prefix of
  \<open>s\<close>, in the order of preference of a leftmost-first (Perl-like, as Go's \<open>regexp\<close>
  documents) match: a greedy operator tries the longer alternative first. An iteration
  of \<open>Star\<close> that consumes nothing is not repeated.
\<close>

function ends :: "regex \<Rightarrow> string \<Rightarrow> string list" where
  "ends Eps s = [s]"
| "ends (Chr c) s = (case s of [] \<Rightarrow> [] | x # xs \<Rightarrow> if x = c then [xs] else [])"
| "ends (Class rs) s = (case s of [] \<Rightarrow> [] | x # xs \<Rightarrow> if inClass rs x then [xs] else [])"
| "ends (Cat a b) s = concat (map (ends b) (ends a s))"
| "ends (Opt a) s = ends a s @ [s]"
| "ends (Star a) s =
     concat (map (\<lambda>t. if length t < length s then ends (Star a) t else []) (ends a s)) @ [s]"
  by pat_completeness auto
termination
  by (relation "measures [\<lambda>(r, s). size r, \<lambda>(r, s). length s]") auto

text \<open>The match of \<open>r\<close> that starts at the head of \<open>s\<close>, if there is one: the matched
  text and the rest.\<close>

definition matchAt :: "regex \<Rightarrow> string \<Rightarrow> (string \<times> string) option" where
  "matchAt r s =
     (case ends r s of [] \<Rightarrow> None | t # _ \<Rightarrow> Some (take (length s - length t) s, t))"

text \<open>
  \<open>(*Regexp).FindAllString(s, -1)\<close>: the successive non-overlapping matches, each the
  leftmost one in what is left of the text. \<open>adj\<close> says that the previous match ended
  where \<open>s\<close> starts: an empty match there is not reported. After an empty match, and where
  nothing matches, the search moves on by one byte (Go moves by one UTF-8 sequence; for
  a pattern of ASCII classes no match starts inside one).
\<close>

function findAllFrom :: "regex \<Rightarrow> bool \<Rightarrow> string \<Rightarrow> string list" where
  "findAllFrom r adj s =
     (case matchAt r s of
        None \<Rightarrow> (case s of [] \<Rightarrow> [] | x # xs \<Rightarrow> findAllFrom r False xs)
      | Some (m, t) \<Rightarrow>
          if length t < length s then m # findAllFrom r True t
          else (if adj then [] else [m])
               @ (case s of [] \<Rightarrow> [] | x # xs \<Rightarrow> findAllFrom r False xs))"
  by pat_completeness auto
termination
  by (relation "measure (\<lambda>(r, adj, s). length s)") auto

definition FindAllString :: "regex \<Rightarrow> string \<Rightarrow> string list" where
  "FindAllString r s = findAllFrom r False s"

text \<open>
  Two properties of a pattern, read off its syntax: whether it can match the empty text,
  and which bytes a match of it can contain.
\<close>

fun nullable :: "regex \<Rightarrow> bool" where
  "nullable Eps = True"
| "nullable (Chr c) = False"
| "nullable (Class rs) = False"
| "nullable (Cat a b) = (nullable a \<and> nullable b)"
| "nullable (Opt a) = True"
| "nullable (Star a) = True"

fun bytesOf :: "regex \<Rightarrow> char \<Rightarrow> bool" where
  "bytesOf Eps c = False"
| "bytesOf (Chr d) c = (c = d)"
| "bytesOf (Class rs) c = inClass rs c"
| "bytesOf (Cat a b) c = (bytesOf a c \<or> bytesOf b c)"
| "bytesOf (Opt a) c = bytesOf a c"
| "bytesOf (Star a) c = bytesOf a c"

subsection \<open>The pattern\<close>

text \<open>
  \<^verbatim>\<open>[a-zA-Z0-9.!#$%&'*+/=?^_`{|}~-]+@[a-zA-Z0-9](?:[a-zA-Z0-9-]{0,61}[a-zA-Z0-9])?(?:\.[a-zA-Z0-9](?:[a-zA-Z0-9-]{0,61}[a-zA-Z0-9])?)*\<close>
\<close>

definition alnum :: "(char \<times> char) list" where
  "alnum = [(CHR ''a'', CHR ''z''), (CHR ''A'', CHR ''Z''), (CHR ''0'', CHR ''9'')]"

definition alnumHyphen :: "(char \<times> char) list" where
  "alnumHyphen = alnum @ [(CHR ''-'', CHR ''-'')]"

definition localPart :: "(char \<times> char) list" where
  "localPart = alnum @ map (\<lambda>c. (c, c))
     [CHR ''.'', CHR ''!'', CHR ''#'', CHR ''$'', CHR ''%'', CHR ''&'', CHR 0x27, CHR ''*'',
      CHR ''+'', CHR ''/'', CHR ''='', CHR ''?'', CHR ''^'', CHR ''_'', CHR 0x60, CHR ''{'',
      CHR ''|'', CHR ''}'', CHR ''~'', CHR ''-'']"

definition label :: regex where
  "label = Cat (Class alnum) (Opt (Cat (UpTo 61 (Class alnumHyphen)) (Class alnum)))"

definition whoisRegexp :: regex where
  "whoisRegexp =
     Cat (Plus (Class localPart))
       (Cat (Chr CHR ''@'')
         (Cat label (Star (Cat (Chr CHR ''.'') label))))"

subsection \<open>The whois fallback\<close>

text \<open>
  \<open>sort.Strings\<close> arranges the slice in ascending order. The order of strings is linear,
  so there is one such arrangement, the one \<^const>\<open>sort\<close> returns.

  A \<open>map[string]struct{}\<close> is an association list with distinct keys; \<open>m[k] = struct{}{}\<close>
  is \<^const>\<open>AList.update\<close>. A \<open>range\<close> loop visits every key once, in an order the runtime
  picks: \<open>rangeKeys\<close> takes the order from \<open>rangeOrder\<close> whenever that answer is an
  arrangement of the keys, so every arrangement is the visit of some runtime.
\<close>

definition rangeKeys :: "Collaborators \<Rightarrow> (string \<times> unit) list \<Rightarrow> string list" where
  "rangeKeys env m =
     (let ks = map fst m; ks' = rangeOrder env ks
      in if distinct ks' \<and> set ks' = set ks then ks' else ks)"

text \<open>Lines 169 to 181 of \<open>whoisEnrichmentIP\<close>: "lower and sort unique".\<close>

definition lowerSortUnique :: "Collaborators \<Rightarrow> string list \<Rightarrow> string list" where
  "lowerSortUnique env foundMailAddresses =
     (let m = foldl (\<lambda>m v. AList.update (ToLower v) () m) [] foundMailAddresses;
          abusemails = foldl (\<lambda>abusemails k. abusemails @ [k]) [] (rangeKeys env m)
      in sort abusemails)"

definition whoisEnrichmentIP :: "Collaborators \<Rightarrow> string \<Rightarrow> string list \<times> call list" where
  "whoisEnrichmentIP env ipAddr =
     (case Whois env ipAddr of
        Inl err \<Rightarrow> ([], [CallWhois ipAddr])
      | Inr whoisInfo \<Rightarrow>
          if whoisInfo = [] then ([], [CallWhois ipAddr])
          else
            let foundMailAddresses = FindAllString whoisRegexp whoisInfo
            in (if length foundMailAddresses = 0 then []
                else if length foundMailAddresses = 1 then [ToLower (foundMailAddresses ! 0)]
                else lowerSortUnique env foundMailAddresses,
                [CallWhois ipAddr]))"

definition whoisEnrichment :: "Collaborators \<Rightarrow> EnrichInfo \<Rightarrow> string list \<times> call list" where
  "whoisEnrichment env e = whoisEnrichmentIP env (Ip e)"

subsection \<open>The four steps and the pipeline\<close>

text \<open>
  \<open>NewEnricher\<close>: the struct holds the address, every other field is empty. (The
  \<open>ripestat\<close> client it creates is part of the collaborators here.)
\<close>

definition NewEnricher :: "string \<Rightarrow> EnrichInfo" where
  "NewEnricher ip =
     \<lparr>Ip = ip, Abuse = '''', Abuse_source = '''', Prefix = '''', Asn = '''',
      Holder = '''', City = '''', Country = ''''\<rparr>"

definition enrichAbuseFromIP ::
  "Collaborators \<Rightarrow> EnrichInfo \<Rightarrow> string \<Rightarrow> (string \<times> string) \<times> call list" where
  "enrichAbuseFromIP env e ipAddr =
     (let abuse = ''unknown''; abuseSource = ''''
      in case GetAbuseContacts env ipAddr of
           Inl err \<Rightarrow> ((abuse, abuseSource), [CallGetAbuseContacts ipAddr])
         | Inr contacts \<Rightarrow>
             if length contacts > 0
             then ((Join contacts '';'', ''ripeSTAT''), [CallGetAbuseContacts ipAddr])
             else
               let (contacts_from_whois, calls) = whoisEnrichment env e
               in if length contacts_from_whois > 0
                  then ((Join contacts_from_whois '';'', ''whois''),
                        CallGetAbuseContacts ipAddr # calls)
                  else ((abuse, abuseSource), CallGetAbuseContacts ipAddr # calls))"

definition enrichPrefixAndASNFromIP ::
  "Collaborators \<Rightarrow> string \<Rightarrow> (string \<times> string) \<times> call list" where
  "enrichPrefixAndASNFromIP env ipAddr =
     (let prefix = ''unknown''; asn = ''unknown''
      in case GetNetworkInfo env ipAddr of
           Inl err \<Rightarrow> ((prefix, asn), [CallGetNetworkInfo ipAddr])
         | Inr netInfo \<Rightarrow>
             if length (ASNs netInfo) = 0
             then ((Prefix_ni netInfo, asn), [CallGetNetworkInfo ipAddr])
             else ((Prefix_ni netInfo, ASNs netInfo ! 0), [CallGetNetworkInfo ipAddr]))"

definition enrichHolderFromASN :: "Collaborators \<Rightarrow> string \<Rightarrow> string \<times> call list" where
  "enrichHolderFromASN env asn =
     (let holder = ''unknown''
      in if asn = ''unknown'' then (holder, [])
         else case GetASOverview env asn of
                Inl err \<Rightarrow> (holder, [CallGetASOverview asn])
              | Inr asOverview \<Rightarrow> (Holder_as asOverview, [CallGetASOverview asn]))"

definition enrichCityAndCountryFromPrefix ::
  "Collaborators \<Rightarrow> string \<Rightarrow> (string \<times> string) \<times> call list" where
  "enrichCityAndCountryFromPrefix env prefix =
     (let city = ''unknown''; country = ''unknown''
      in if prefix = ''unknown'' then ((city, country), [])
         else case GetGeolocationData env prefix of
                Inl err \<Rightarrow> ((city, country), [CallGetGeolocationData prefix])
              | Inr geolocation \<Rightarrow>
                  if length (LocatedResources geolocation) = 0
                  then ((city, country), [CallGetGeolocationData prefix])
                  else if length (Locations (LocatedResources geolocation ! 0)) = 0
                  then ((city, country), [CallGetGeolocationData prefix])
                  else ((City_loc (Locations (LocatedResources geolocation ! 0) ! 0),
                         Country_loc (Locations (LocatedResources geolocation ! 0) ! 0)),
                        [CallGetGeolocationData prefix]))"

text \<open>
  \<open>EnrichIP\<close> first replaces \<open>e.EnrichInfo\<close> by a fresh struct holding the address only
  (the other fields are Go's zero value, the empty string), then fills it step by step.
  It returns the struct and, here, the calls made.
\<close>

definition EnrichIP :: "Collaborators \<Rightarrow> EnrichInfo \<Rightarrow> string \<Rightarrow> EnrichInfo \<times> call list" where
  "EnrichIP env e ipAddr =
     (let e0 = \<lparr>Ip = ipAddr, Abuse = '''', Abuse_source = '''', Prefix = '''', Asn = '''',
                Holder = '''', City = '''', Country = ''''\<rparr>;
          ((abuse, abuseSource), calls1) = enrichAbuseFromIP env e0 ipAddr;
          e1 = e0\<lparr>Abuse := abuse, Abuse_source := abuseSource\<rparr>;
          ((prefix, asn), calls2) = enrichPrefixAndASNFromIP env ipAddr;
          e2 = e1\<lparr>Prefix := prefix, Asn := asn\<rparr>;
          (holder, calls3) = enrichHolderFromASN env (Asn e2);
          e3 = e2\<lparr>Holder := holder\<rparr>;
          ((city, country), calls4) = enrichCityAndCountryFromPrefix env (Prefix e3);
          e4 = e3\<lparr>City := city, Country := country\<rparr>
      in (e4, calls1 @ calls2 @ calls3 @ calls4))"

definition Enrich :: "Collaborators \<Rightarrow> EnrichInfo \<Rightarrow> EnrichInfo \<times> call list" where
  "Enrich env e = EnrichIP env e (Ip e)"

subsection \<open>Collaborators for concrete runs\<close>

text \<open>
  The answers of the end-to-end scenario for \<open>203.0.113.5\<close>, with a whois record of two
  spellings of one address, and a runtime that walks a map from the last key to the
  first. The runs below change one answer at a time.
\<close>

definition scenario :: Collaborators where
  "scenario =
     \<lparr>GetAbuseContacts = (\<lambda>ip. Inr [''abuse@example.net'']),
      GetNetworkInfo = (\<lambda>ip. Inr \<lparr>Prefix_ni = ''203.0.113.0/24'', ASNs = [''64500'']\<rparr>),
      GetASOverview = (\<lambda>asn. Inr \<lparr>Holder_as = ''EXAMPLE-NET''\<rparr>),
      GetGeolocationData = (\<lambda>prefix. Inr \<lparr>LocatedResources =
         [\<lparr>Locations = [\<lparr>City_loc = ''Rotterdam'', Country_loc = ''NL''\<rparr>]\<rparr>]\<rparr>),
      Whois = (\<lambda>ip. Inr ''contact: Ops@Example.com, also OPS@example.com''),
      rangeOrder = rev\<rparr>"

text \<open>The primary source fails for abuse contacts; answers with no contact; answers with
  three contacts, one of them twice, in no particular order or case.\<close>

definition primaryDown :: Collaborators where
  "primaryDown = scenario\<lparr>GetAbuseContacts := \<lambda>ip. Inl (Error ''timeout'')\<rparr>"

definition primarySilent :: Collaborators where
  "primarySilent = scenario\<lparr>GetAbuseContacts := \<lambda>ip. Inr []\<rparr>"

definition primaryVerbatim :: Collaborators where
  "primaryVerbatim = scenario\<lparr>GetAbuseContacts :=
     \<lambda>ip. Inr [''Noc@B.example'', ''abuse@a.example'', ''Noc@B.example'']\<rparr>"

text \<open>Every lookup succeeds and every string in the answers is empty.\<close>

definition emptyAnswers :: Collaborators where
  "emptyAnswers =
     \<lparr>GetAbuseContacts = (\<lambda>ip. Inr ['''']),
      GetNetworkInfo = (\<lambda>ip. Inr \<lparr>Prefix_ni = '''', ASNs = ['''']\<rparr>),
      GetASOverview = (\<lambda>asn. Inr \<lparr>Holder_as = ''''\<rparr>),
      GetGeolocationData = (\<lambda>prefix. Inr \<lparr>LocatedResources =
         [\<lparr>Locations = [\<lparr>City_loc = '''', Country_loc = ''''\<rparr>]\<rparr>]\<rparr>),
      Whois = (\<lambda>ip. Inr ''''),
      rangeOrder = id\<rparr>"

text \<open>Network info: the lookup fails; it succeeds with neither prefix nor ASN; with a
  prefix and no ASN; with two ASNs.\<close>

definition networkDown :: Collaborators where
  "networkDown = scenario\<lparr>GetNetworkInfo := \<lambda>ip. Inl (Error ''timeout'')\<rparr>"

definition networkBlank :: Collaborators where
  "networkBlank = scenario\<lparr>GetNetworkInfo := \<lambda>ip. Inr \<lparr>Prefix_ni = '''', ASNs = []\<rparr>\<rparr>"

definition networkNoASN :: Collaborators where
  "networkNoASN = scenario\<lparr>GetNetworkInfo :=
     \<lambda>ip. Inr \<lparr>Prefix_ni = ''203.0.113.0/24'', ASNs = []\<rparr>\<rparr>"

definition networkTwoASNs :: Collaborators where
  "networkTwoASNs = scenario\<lparr>GetNetworkInfo :=
     \<lambda>ip. Inr \<lparr>Prefix_ni = ''203.0.113.0/24'', ASNs = [''64500'', ''64496'']\<rparr>\<rparr>"

text \<open>Geolocation: two located resources with two locations each; the lookup fails.\<close>

definition geoMany :: Collaborators where
  "geoMany = scenario\<lparr>GetGeolocationData := \<lambda>prefix. Inr \<lparr>LocatedResources =
     [\<lparr>Locations = [\<lparr>City_loc = ''Rotterdam'', Country_loc = ''NL''\<rparr>,
                    \<lparr>City_loc = ''Antwerp'', Country_loc = ''BE''\<rparr>]\<rparr>,
      \<lparr>Locations = [\<lparr>City_loc = ''Cologne'', Country_loc = ''DE''\<rparr>,
                    \<lparr>City_loc = ''Lille'', Country_loc = ''FR''\<rparr>]\<rparr>]\<rparr>\<rparr>"

definition geoDown :: Collaborators where
  "geoDown = scenario\<lparr>GetGeolocationData := \<lambda>prefix. Inl (Error ''timeout'')\<rparr>"

text \<open>Whois records: two addresses in descending order, and the same two in ascending
  order; one address in two spellings; one address once.\<close>

definition whoisZetaAlpha :: Collaborators where
  "whoisZetaAlpha = primarySilent\<lparr>Whois := \<lambda>ip. Inr ''zeta@x.com alpha@x.com''\<rparr>"

definition whoisAlphaZeta :: Collaborators where
  "whoisAlphaZeta =
     primarySilent\<lparr>Whois := \<lambda>ip. Inr ''alpha@x.com zeta@x.com'', rangeOrder := id\<rparr>"

definition whoisTwoSpellings :: Collaborators where
  "whoisTwoSpellings = primarySilent\<lparr>Whois := \<lambda>ip. Inr ''Foo@Bar.com and foo@bar.com''\<rparr>"

definition whoisSingle :: Collaborators where
  "whoisSingle = primarySilent\<lparr>Whois := \<lambda>ip. Inr ''OrgAbuseEmail:  Abuse@Example.NET''\<rparr>"

section \<open>Properties of the library functions\<close>

declare ends.simps(6) [simp del]
declare findAllFrom.simps [simp del]

lemma Join_nonempty: "xs \<noteq> [] \<Longrightarrow> [] \<notin> set xs \<Longrightarrow> Join xs sep \<noteq> []"
  by (induction xs sep rule: Join.induct) auto

lemma foldl_snoc: "foldl (\<lambda>acc k. acc @ [k]) acc ks = acc @ ks"
  by (induction ks arbitrary: acc) auto

lemma sort_distinct_eq: "distinct ks \<Longrightarrow> sort ks = sorted_list_of_set (set ks)"
  by (simp add: sorted_list_of_set_sort_remdups distinct_remdups_id)

subsection \<open>What a match consumes\<close>

text \<open>
  Every way a pattern matches at the head of a text splits the text into the match and
  the rest; the match holds bytes of the pattern only, and is not empty unless the
  pattern is nullable.
\<close>

lemma ends_split:
  "t \<in> set (ends r s) \<Longrightarrow>
   \<exists>p. s = p @ t \<and> (\<forall>c \<in> set p. bytesOf r c) \<and> (\<not> nullable r \<longrightarrow> p \<noteq> [])"
proof (induction r s arbitrary: t rule: ends.induct)
  case (1 s)
  then show ?case by simp
next
  case (2 c s)
  then show ?case by (cases s) (auto split: if_splits)
next
  case (3 rs s)
  then show ?case by (cases s) (auto split: if_splits)
next
  case (4 a b s)
  from "4.prems" obtain u where u: "u \<in> set (ends a s)" "t \<in> set (ends b u)"
    by auto
  from "4.IH"(1) [OF u(1)] obtain p where
    p: "s = p @ u" "\<forall>c \<in> set p. bytesOf a c" "\<not> nullable a \<longrightarrow> p \<noteq> []"
    by blast
  from "4.IH"(2) [OF u(1) u(2)] obtain q where
    q: "u = q @ t" "\<forall>c \<in> set q. bytesOf b c" "\<not> nullable b \<longrightarrow> q \<noteq> []"
    by blast
  have "s = (p @ q) @ t" using p(1) q(1) by simp
  moreover have "\<forall>c \<in> set (p @ q). bytesOf (Cat a b) c" using p(2) q(2) by auto
  moreover have "\<not> nullable (Cat a b) \<longrightarrow> p @ q \<noteq> []" using p(3) q(3) by auto
  ultimately show ?case by blast
next
  case (5 a s)
  from "5.prems" have "t \<in> set (ends a s) \<or> t = s" by auto
  then show ?case
  proof
    assume "t \<in> set (ends a s)"
    from "5.IH" [OF this] show ?thesis by auto
  next
    assume "t = s"
    then show ?thesis by simp
  qed
next
  case (6 a s)
  from "6.prems" consider
    (iter) u where "u \<in> set (ends a s)" "length u < length s" "t \<in> set (ends (Star a) u)"
    | (stop) "t = s"
    by (auto simp: ends.simps(6) [of a s] split: if_splits)
  then show ?case
  proof cases
    case iter
    from "6.IH"(1) [OF iter(1)] obtain p where
      p: "s = p @ u" "\<forall>c \<in> set p. bytesOf a c"
      by blast
    from "6.IH"(2) [OF iter(1) iter(2) iter(3)] obtain q where
      q: "u = q @ t" "\<forall>c \<in> set q. bytesOf (Star a) c"
      by blast
    have "s = (p @ q) @ t" using p(1) q(1) by simp
    moreover have "\<forall>c \<in> set (p @ q). bytesOf (Star a) c" using p(2) q(2) by auto
    ultimately show ?thesis by (metis nullable.simps(6))
  next
    case stop
    then show ?thesis by simp
  qed
qed

lemma matchAt_split:
  assumes "matchAt r s = Some (m, t)"
  shows "s = m @ t \<and> (\<forall>c \<in> set m. bytesOf r c) \<and> (\<not> nullable r \<longrightarrow> m \<noteq> [])"
proof -
  from assms obtain ts where e: "ends r s = t # ts" and m: "m = take (length s - length t) s"
    by (auto simp: matchAt_def split: list.splits)
  then have "t \<in> set (ends r s)" by simp
  from ends_split [OF this] obtain p where
    p: "s = p @ t" "\<forall>c \<in> set p. bytesOf r c" "\<not> nullable r \<longrightarrow> p \<noteq> []"
    by blast
  have "m = p" using m p(1) by simp
  then show ?thesis using p by simp
qed

lemma findAllFrom_matches:
  "\<not> nullable r \<Longrightarrow> m \<in> set (findAllFrom r adj s) \<Longrightarrow> m \<noteq> [] \<and> (\<forall>c \<in> set m. bytesOf r c)"
proof (induction r adj s rule: findAllFrom.induct)
  case (1 r adj s)
  show ?case
  proof (cases "matchAt r s")
    case None
    show ?thesis
    proof (cases s)
      case Nil
      then show ?thesis
        using "1.prems"(2) None by (simp add: findAllFrom.simps [of r adj "[]"])
    next
      case (Cons x xs)
      then have "m \<in> set (findAllFrom r False xs)"
        using "1.prems"(2) None by (simp add: findAllFrom.simps [of r adj "x # xs"])
      then show ?thesis
        using "1.IH"(1) [OF None Cons "1.prems"(1)] by simp
    qed
  next
    case (Some mt)
    obtain m' t where mt: "mt = (m', t)" by (cases mt)
    from matchAt_split [of r s m' t] Some mt "1.prems"(1)
    have sp: "s = m' @ t" "\<forall>c \<in> set m'. bytesOf r c" "m' \<noteq> []"
      by auto
    then have lt: "length t < length s" by simp
    from "1.prems"(2) have "m = m' \<or> m \<in> set (findAllFrom r True t)"
      using Some mt lt by (simp add: findAllFrom.simps [of r adj s])
    then show ?thesis
    proof
      assume "m = m'"
      then show ?thesis using sp by simp
    next
      assume "m \<in> set (findAllFrom r True t)"
      then show ?thesis
        using "1.IH"(2) [OF Some mt [symmetric] lt "1.prems"(1)] by simp
    qed
  qed
qed

subsection \<open>The map of lower-cased addresses\<close>

lemma keys_foldl_update:
  "distinct (map fst m) \<Longrightarrow>
   distinct (map fst (foldl (\<lambda>m v. AList.update (f v) () m) m vs)) \<and>
   fst ` set (foldl (\<lambda>m v. AList.update (f v) () m) m vs) = fst ` set m \<union> f ` set vs"
proof (induction vs arbitrary: m)
  case Nil
  then show ?case by simp
next
  case (Cons v vs)
  have d: "distinct (map fst (AList.update (f v) () m))"
    using Cons.prems by (rule distinct_update)
  show ?case
    using Cons.IH [OF d] by (auto simp: dom_update)
qed

lemma rangeKeys_arrangement:
  "distinct (map fst m) \<Longrightarrow>
   distinct (rangeKeys env m) \<and> set (rangeKeys env m) = fst ` set m"
  by (auto simp: rangeKeys_def Let_def)

lemma lowerSortUnique_eq:
  "lowerSortUnique env found = sorted_list_of_set (ToLower ` set found)"
proof -
  let ?m = "foldl (\<lambda>m v. AList.update (ToLower v) () m) [] found"
  have m: "distinct (map fst ?m) \<and> fst ` set ?m = fst ` set [] \<union> ToLower ` set found"
    using keys_foldl_update [of "[]" ToLower found] by simp
  then have k: "distinct (rangeKeys env ?m)" "set (rangeKeys env ?m) = ToLower ` set found"
    using rangeKeys_arrangement [of ?m env] by auto
  show ?thesis
    unfolding lowerSortUnique_def Let_def foldl_snoc
    using sort_distinct_eq [OF k(1)] k(2) by simp
qed

subsection \<open>Matches of the pattern\<close>

lemma bytesOf_UpTo: "bytesOf (UpTo n r) c \<Longrightarrow> bytesOf r c"
  by (induction n) auto

lemma alnum_ascii: "inClass alnum c \<Longrightarrow> (of_char c :: nat) < 128"
  by (auto simp: inClass_def alnum_def less_eq_char_def)

lemma alnumHyphen_ascii: "inClass alnumHyphen c \<Longrightarrow> (of_char c :: nat) < 128"
  by (auto simp: inClass_def alnumHyphen_def alnum_def less_eq_char_def)

lemma localPart_ascii: "inClass localPart c \<Longrightarrow> (of_char c :: nat) < 128"
  by (auto simp: inClass_def localPart_def alnum_def less_eq_char_def)

lemma whoisRegexp_bytes: "bytesOf whoisRegexp c \<Longrightarrow> (of_char c :: nat) < 128"
  by (auto simp: whoisRegexp_def Plus_def label_def dest!: bytesOf_UpTo
      dest: alnum_ascii alnumHyphen_ascii localPart_ascii)

lemma whoisRegexp_not_nullable: "\<not> nullable whoisRegexp"
  by (simp add: whoisRegexp_def Plus_def)

text \<open>Every address the pattern finds is a non-empty run of ASCII bytes.\<close>

lemma whoisRegexp_match_ascii:
  "m \<in> set (FindAllString whoisRegexp s) \<Longrightarrow>
   m \<noteq> [] \<and> (\<forall>c \<in> set m. (of_char c :: nat) < 128)"
  using findAllFrom_matches [OF whoisRegexp_not_nullable, of m False s] whoisRegexp_bytes
  by (auto simp: FindAllString_def)

lemma FindAllString_empty: "FindAllString whoisRegexp [] = []"
  by code_simp

lemma ToLower_nonempty: "ToLower m = [] \<longleftrightarrow> m = []"
  by (simp add: ToLower_def)

subsection \<open>The steps of the pipeline\<close>

lemma whoisEnrichmentIP_calls: "snd (whoisEnrichmentIP env ip) = [CallWhois ip]"
  by (simp add: whoisEnrichmentIP_def Let_def split: sum.splits)

lemma whoisEnrichmentIP_result:
  "Whois env ip = Inr whoisInfo \<Longrightarrow>
   fst (whoisEnrichmentIP env ip) =
     (let found = FindAllString whoisRegexp whoisInfo
      in if length found = 0 then [] else if length found = 1 then [ToLower (found ! 0)]
         else lowerSortUnique env found)"
  by (simp add: whoisEnrichmentIP_def Let_def FindAllString_empty)

lemma single_sorted_list: "length found = 1 \<Longrightarrow> sorted_list_of_set (f ` set found) = [f (found ! 0)]"
  by (cases found) auto

lemma whoisEnrichmentIP_sorted_set:
  assumes "Whois env ip = Inr whoisInfo"
  shows "fst (whoisEnrichmentIP env ip) =
         sorted_list_of_set (ToLower ` set (FindAllString whoisRegexp whoisInfo))"
proof -
  let ?found = "FindAllString whoisRegexp whoisInfo"
  consider "length ?found = 0" | "length ?found = 1" | "length ?found \<noteq> 0 \<and> length ?found \<noteq> 1"
    by blast
  then show ?thesis
  proof cases
    case 1
    then show ?thesis using whoisEnrichmentIP_result [OF assms] by simp
  next
    case 2
    then show ?thesis
      using whoisEnrichmentIP_result [OF assms] single_sorted_list [OF 2, of ToLower]
      by (auto simp: Let_def)
  next
    case 3
    then show ?thesis
      using whoisEnrichmentIP_result [OF assms] by (simp add: Let_def lowerSortUnique_eq)
  qed
qed

lemma whoisEnrichmentIP_nonempty_entries:
  "[] \<notin> set (fst (whoisEnrichmentIP env ip))"
proof (cases "Whois env ip")
  case (Inl err)
  then show ?thesis by (simp add: whoisEnrichmentIP_def)
next
  case (Inr whoisInfo)
  have "[] \<notin> ToLower ` set (FindAllString whoisRegexp whoisInfo)"
    using whoisRegexp_match_ascii [of _ whoisInfo] by (fastforce simp: ToLower_def)
  then show ?thesis
    using whoisEnrichmentIP_sorted_set [OF Inr] by simp
qed

text \<open>The fields of the record and the calls of a run, step by step.\<close>

lemma EnrichIP_Abuse:
  "Abuse (fst (EnrichIP env e ip)) = fst (fst (enrichAbuseFromIP env (NewEnricher ip) ip))"
  "Abuse_source (fst (EnrichIP env e ip)) = snd (fst (enrichAbuseFromIP env (NewEnricher ip) ip))"
  by (simp_all add: EnrichIP_def NewEnricher_def Let_def split: prod.splits)

lemma EnrichIP_Prefix:
  "Prefix (fst (EnrichIP env e ip)) = fst (fst (enrichPrefixAndASNFromIP env ip))"
  "Asn (fst (EnrichIP env e ip)) = snd (fst (enrichPrefixAndASNFromIP env ip))"
  by (simp_all add: EnrichIP_def Let_def split: prod.splits)

lemma EnrichIP_Holder:
  "Holder (fst (EnrichIP env e ip)) =
   fst (enrichHolderFromASN env (snd (fst (enrichPrefixAndASNFromIP env ip))))"
  by (simp add: EnrichIP_def Let_def split: prod.splits)

lemma EnrichIP_City:
  "City (fst (EnrichIP env e ip)) =
   fst (fst (enrichCityAndCountryFromPrefix env (fst (fst (enrichPrefixAndASNFromIP env ip)))))"
  "Country (fst (EnrichIP env e ip)) =
   snd (fst (enrichCityAndCountryFromPrefix env (fst (fst (enrichPrefixAndASNFromIP env ip)))))"
  by (simp_all add: EnrichIP_def Let_def split: prod.splits)

lemma EnrichIP_Ip: "Ip (fst (EnrichIP env e ip)) = ip"
  by (simp add: EnrichIP_def Let_def split: prod.splits)

lemma EnrichIP_calls:
  "snd (EnrichIP env e ip) =
   snd (enrichAbuseFromIP env (NewEnricher ip) ip)
   @ snd (enrichPrefixAndASNFromIP env ip)
   @ snd (enrichHolderFromASN env (snd (fst (enrichPrefixAndASNFromIP env ip))))
   @ snd (enrichCityAndCountryFromPrefix env (fst (fst (enrichPrefixAndASNFromIP env ip))))"
  by (simp add: EnrichIP_def NewEnricher_def Let_def split: prod.splits)

lemma enrichPrefixAndASNFromIP_calls:
  "snd (enrichPrefixAndASNFromIP env ip) = [CallGetNetworkInfo ip]"
  by (simp add: enrichPrefixAndASNFromIP_def Let_def split: sum.splits)

lemma enrichHolderFromASN_calls:
  "snd (enrichHolderFromASN env asn) = (if asn = ''unknown'' then [] else [CallGetASOverview asn])"
  by (simp add: enrichHolderFromASN_def Let_def split: sum.splits)

lemma enrichCityAndCountryFromPrefix_calls:
  "snd (enrichCityAndCountryFromPrefix env prefix) =
   (if prefix = ''unknown'' then [] else [CallGetGeolocationData prefix])"
  by (simp add: enrichCityAndCountryFromPrefix_def Let_def split: sum.splits)

lemma enrichAbuseFromIP_calls:
  "snd (enrichAbuseFromIP env e ip) =
   (case GetAbuseContacts env ip of
      Inl err \<Rightarrow> [CallGetAbuseContacts ip]
    | Inr contacts \<Rightarrow>
        if contacts \<noteq> [] then [CallGetAbuseContacts ip]
        else [CallGetAbuseContacts ip, CallWhois (Ip e)])"
  using whoisEnrichmentIP_calls [of env "Ip e"]
  by (auto simp: enrichAbuseFromIP_def whoisEnrichment_def Let_def split: sum.splits prod.splits)

lemma enrichAbuseFromIP_result:
  "fst (enrichAbuseFromIP env e ip) =
   (case GetAbuseContacts env ip of
      Inl err \<Rightarrow> (''unknown'', '''')
    | Inr contacts \<Rightarrow>
        if contacts \<noteq> [] then (Join contacts '';'', ''ripeSTAT'')
        else if fst (whoisEnrichmentIP env (Ip e)) \<noteq> []
        then (Join (fst (whoisEnrichmentIP env (Ip e))) '';'', ''whois'')
        else (''unknown'', ''''))"
  by (auto simp: enrichAbuseFromIP_def whoisEnrichment_def Let_def split: sum.splits prod.splits)

text \<open>What each step returns, by cases on the answer of its collaborator.\<close>

lemma count_list_distinct: "distinct xs \<Longrightarrow> x \<in> set xs \<Longrightarrow> count_list xs x = 1"
  by (induction xs) auto

lemma whoisEnrichmentIP_rangeOrder:
  "fst (whoisEnrichmentIP (env\<lparr>rangeOrder := order\<rparr>) ip) = fst (whoisEnrichmentIP env ip)"
proof (cases "Whois env ip")
  case (Inl err)
  then show ?thesis by (simp add: whoisEnrichmentIP_def)
next
  case (Inr whoisInfo)
  then have "Whois (env\<lparr>rangeOrder := order\<rparr>) ip = Inr whoisInfo" by simp
  from whoisEnrichmentIP_sorted_set [OF this] whoisEnrichmentIP_sorted_set [OF Inr]
  show ?thesis by simp
qed

lemma enrichPrefixAndASNFromIP_result:
  "fst (enrichPrefixAndASNFromIP env ip) =
   (case GetNetworkInfo env ip of
      Inl err \<Rightarrow> (''unknown'', ''unknown'')
    | Inr netInfo \<Rightarrow>
        (Prefix_ni netInfo, case ASNs netInfo of [] \<Rightarrow> ''unknown'' | asn # _ \<Rightarrow> asn))"
  by (simp add: enrichPrefixAndASNFromIP_def Let_def split: sum.splits list.splits)

lemma enrichHolderFromASN_result:
  "fst (enrichHolderFromASN env asn) =
   (if asn = ''unknown'' then ''unknown''
    else case GetASOverview env asn of
           Inl err \<Rightarrow> ''unknown''
         | Inr asOverview \<Rightarrow> Holder_as asOverview)"
  by (simp add: enrichHolderFromASN_def Let_def split: sum.splits)

lemma enrichCityAndCountryFromPrefix_result:
  "fst (enrichCityAndCountryFromPrefix env prefix) =
   (if prefix = ''unknown'' then (''unknown'', ''unknown'')
    else case GetGeolocationData env prefix of
           Inl err \<Rightarrow> (''unknown'', ''unknown'')
         | Inr geolocation \<Rightarrow>
             (case LocatedResources geolocation of
                [] \<Rightarrow> (''unknown'', ''unknown'')
              | resource # _ \<Rightarrow>
                  (case Locations resource of
                     [] \<Rightarrow> (''unknown'', ''unknown'')
                   | location # _ \<Rightarrow> (City_loc location, Country_loc location))))"
  by (simp add: enrichCityAndCountryFromPrefix_def Let_def split: sum.splits list.splits)

lemma steps_ignore_GetASOverview:
  "enrichAbuseFromIP (env\<lparr>GetASOverview := f\<rparr>) e ip = enrichAbuseFromIP env e ip"
  "enrichPrefixAndASNFromIP (env\<lparr>GetASOverview := f\<rparr>) ip = enrichPrefixAndASNFromIP env ip"
  "enrichCityAndCountryFromPrefix (env\<lparr>GetASOverview := f\<rparr>) p =
   enrichCityAndCountryFromPrefix env p"
  "enrichHolderFromASN (env\<lparr>GetASOverview := f\<rparr>) ''unknown'' =
   enrichHolderFromASN env ''unknown''"
  by (simp_all add: enrichAbuseFromIP_def whoisEnrichment_def whoisEnrichmentIP_def
      lowerSortUnique_def rangeKeys_def enrichPrefixAndASNFromIP_def
      enrichCityAndCountryFromPrefix_def enrichHolderFromASN_def Let_def
      split: sum.splits)

lemma steps_ignore_GetGeolocationData:
  "enrichAbuseFromIP (env\<lparr>GetGeolocationData := f\<rparr>) e ip = enrichAbuseFromIP env e ip"
  "enrichPrefixAndASNFromIP (env\<lparr>GetGeolocationData := f\<rparr>) ip = enrichPrefixAndASNFromIP env ip"
  "enrichHolderFromASN (env\<lparr>GetGeolocationData := f\<rparr>) asn = enrichHolderFromASN env asn"
  "enrichCityAndCountryFromPrefix (env\<lparr>GetGeolocationData := f\<rparr>) ''unknown'' =
   enrichCityAndCountryFromPrefix env ''unknown''"
  by (simp_all add: enrichAbuseFromIP_def whoisEnrichment_def whoisEnrichmentIP_def
      lowerSortUnique_def rangeKeys_def enrichPrefixAndASNFromIP_def
      enrichCityAndCountryFromPrefix_def enrichHolderFromASN_def Let_def
      split: sum.splits)

lemma EnrichIP_steps:
  "EnrichIP env e ip =
   (\<lparr>Ip = ip,
     Abuse = fst (fst (enrichAbuseFromIP env (NewEnricher ip) ip)),
     Abuse_source = snd (fst (enrichAbuseFromIP env (NewEnricher ip) ip)),
     Prefix = fst (fst (enrichPrefixAndASNFromIP env ip)),
     Asn = snd (fst (enrichPrefixAndASNFromIP env ip)),
     Holder = fst (enrichHolderFromASN env (snd (fst (enrichPrefixAndASNFromIP env ip)))),
     City = fst (fst (enrichCityAndCountryFromPrefix env
               (fst (fst (enrichPrefixAndASNFromIP env ip))))),
     Country = snd (fst (enrichCityAndCountryFromPrefix env
               (fst (fst (enrichPrefixAndASNFromIP env ip)))))\<rparr>,
    snd (enrichAbuseFromIP env (NewEnricher ip) ip)
    @ snd (enrichPrefixAndASNFromIP env ip)
    @ snd (enrichHolderFromASN env (snd (fst (enrichPrefixAndASNFromIP env ip))))
    @ snd (enrichCityAndCountryFromPrefix env (fst (fst (enrichPrefixAndASNFromIP env ip)))))"
  by (simp add: EnrichIP_def NewEnricher_def Let_def split: prod.splits)

section \<open>The claims\<close>

subsection \<open>C1: abuse resolution and the whois fallback\<close>

text \<open>
  Claim C1 says that a failed primary abuse-contact lookup is treated as "no contacts"
  and followed by the whois fallback, so that a whois record holding an address gives
  \<open>abuseSource = "whois"\<close>. In \<open>enrichAbuseFromIP\<close> the branch \<open>err != nil\<close> returns the
  defaults at once: with the primary source down and the whois record of the scenario,
  the run makes no whois call and returns \<open>abuse = "unknown"\<close> with an empty source.
\<close>

theorem abuse_after_primary_failure_counterexample:
  "GetAbuseContacts primaryDown ''203.0.113.5'' = Inl (Error ''timeout'')
   \<and> fst (whoisEnrichmentIP primaryDown ''203.0.113.5'') = [''ops@example.com'']
   \<and> Abuse (fst (EnrichIP primaryDown (NewEnricher ''203.0.113.5'') ''203.0.113.5'')) = ''unknown''
   \<and> Abuse_source (fst (EnrichIP primaryDown (NewEnricher ''203.0.113.5'') ''203.0.113.5'')) = ''''
   \<and> Abuse_source (fst (EnrichIP primaryDown (NewEnricher ''203.0.113.5'') ''203.0.113.5'')) \<noteq> ''whois''
   \<and> snd (EnrichIP primaryDown (NewEnricher ''203.0.113.5'') ''203.0.113.5'') =
       [CallGetAbuseContacts ''203.0.113.5'', CallGetNetworkInfo ''203.0.113.5'',
        CallGetASOverview ''64500'', CallGetGeolocationData ''203.0.113.0/24'']"
  unfolding primaryDown_def scenario_def NewEnricher_def by code_simp

text \<open>
  Claim C1, as the code has it: when the primary abuse-contact lookup fails, the record
  has \<open>abuse = "unknown"\<close> and an empty \<open>abuseSource\<close>, and whois is not consulted; when
  the primary source answers with no contact and the whois extraction yields at least
  one address, \<open>abuseSource = "whois"\<close> and \<open>abuse\<close> is the extracted addresses joined by
  \<open>;\<close>.
\<close>

theorem abuse_resolution:
  "(GetAbuseContacts env ip = Inl err \<longrightarrow>
      Abuse (fst (EnrichIP env e ip)) = ''unknown''
      \<and> Abuse_source (fst (EnrichIP env e ip)) = ''''
      \<and> (\<forall>a. CallWhois a \<notin> set (snd (EnrichIP env e ip))))
   \<and> (GetAbuseContacts env ip = Inr [] \<and> fst (whoisEnrichmentIP env ip) \<noteq> [] \<longrightarrow>
      Abuse (fst (EnrichIP env e ip)) = Join (fst (whoisEnrichmentIP env ip)) '';''
      \<and> Abuse_source (fst (EnrichIP env e ip)) = ''whois'')"
  by (simp add: EnrichIP_Abuse EnrichIP_calls enrichAbuseFromIP_result enrichAbuseFromIP_calls
      enrichPrefixAndASNFromIP_calls enrichHolderFromASN_calls
      enrichCityAndCountryFromPrefix_calls NewEnricher_def)

theorem abuse_resolution_witness:
  "GetAbuseContacts primaryDown ''203.0.113.5'' = Inl (Error ''timeout'')
   \<and> Abuse (fst (EnrichIP primaryDown (NewEnricher ''203.0.113.5'') ''203.0.113.5'')) = ''unknown''
   \<and> Abuse_source (fst (EnrichIP primaryDown (NewEnricher ''203.0.113.5'') ''203.0.113.5'')) = ''''
   \<and> CallWhois ''203.0.113.5''
       \<notin> set (snd (EnrichIP primaryDown (NewEnricher ''203.0.113.5'') ''203.0.113.5''))
   \<and> GetAbuseContacts primarySilent ''203.0.113.5'' = Inr []
   \<and> fst (whoisEnrichmentIP primarySilent ''203.0.113.5'') = [''ops@example.com'']
   \<and> Abuse (fst (EnrichIP primarySilent (NewEnricher ''203.0.113.5'') ''203.0.113.5''))
       = ''ops@example.com''
   \<and> Abuse_source (fst (EnrichIP primarySilent (NewEnricher ''203.0.113.5'') ''203.0.113.5''))
       = ''whois''"
proof -
  have d: "GetAbuseContacts primaryDown ''203.0.113.5'' = Inl (Error ''timeout'')"
    by (simp add: primaryDown_def)
  have s: "GetAbuseContacts primarySilent ''203.0.113.5'' = Inr []"
    by (simp add: primarySilent_def)
  have w: "fst (whoisEnrichmentIP primarySilent ''203.0.113.5'') = [''ops@example.com'']"
    unfolding primarySilent_def scenario_def by code_simp
  show ?thesis
    using abuse_resolution [of primaryDown "''203.0.113.5''" "Error ''timeout''"
        "NewEnricher ''203.0.113.5''"]
      abuse_resolution [of primarySilent "''203.0.113.5''" "Error ''timeout''"
        "NewEnricher ''203.0.113.5''"]
      d s w
    by simp
qed

subsection \<open>C2: populated fields\<close>

text \<open>
  Claim C2 says that \<open>abuse\<close>, \<open>prefix\<close>, \<open>asn\<close>, \<open>holder\<close>, \<open>city\<close> and \<open>country\<close>
  are never empty, also when successful answers carry empty strings. The sentinel is
  set on the failure paths only; a successful answer is copied as it is. When every
  answer is a success made of empty strings, all six fields are empty.
\<close>

theorem empty_answers_counterexample:
  "Abuse (fst (EnrichIP emptyAnswers (NewEnricher ''203.0.113.5'') ''203.0.113.5'')) = ''''
   \<and> Prefix (fst (EnrichIP emptyAnswers (NewEnricher ''203.0.113.5'') ''203.0.113.5'')) = ''''
   \<and> Asn (fst (EnrichIP emptyAnswers (NewEnricher ''203.0.113.5'') ''203.0.113.5'')) = ''''
   \<and> Holder (fst (EnrichIP emptyAnswers (NewEnricher ''203.0.113.5'') ''203.0.113.5'')) = ''''
   \<and> City (fst (EnrichIP emptyAnswers (NewEnricher ''203.0.113.5'') ''203.0.113.5'')) = ''''
   \<and> Country (fst (EnrichIP emptyAnswers (NewEnricher ''203.0.113.5'') ''203.0.113.5'')) = ''''"
  unfolding emptyAnswers_def NewEnricher_def by code_simp

text \<open>
  Claim C2, as the code has it: for every address and all collaborators whose
  successful answers carry no empty string where the pipeline reads one (no empty
  contact, no empty prefix, first ASN, holder, nor city or country of the first
  location), the record echoes the address and each of \<open>abuse\<close>, \<open>prefix\<close>, \<open>asn\<close>,
  \<open>holder\<close>, \<open>city\<close>, \<open>country\<close> is non-empty. Failures of any lookup are allowed.
\<close>

theorem fields_populated:
  assumes contacts: "\<forall>contacts. GetAbuseContacts env ip = Inr contacts \<longrightarrow> [] \<notin> set contacts"
      and network: "\<forall>netInfo. GetNetworkInfo env ip = Inr netInfo \<longrightarrow>
                      Prefix_ni netInfo \<noteq> [] \<and> (ASNs netInfo \<noteq> [] \<longrightarrow> ASNs netInfo ! 0 \<noteq> [])"
      and holder: "\<forall>asn asOverview. GetASOverview env asn = Inr asOverview \<longrightarrow>
                      Holder_as asOverview \<noteq> []"
      and location: "\<forall>prefix geolocation.
                      GetGeolocationData env prefix = Inr geolocation
                      \<and> LocatedResources geolocation \<noteq> []
                      \<and> Locations (LocatedResources geolocation ! 0) \<noteq> [] \<longrightarrow>
                      City_loc (Locations (LocatedResources geolocation ! 0) ! 0) \<noteq> []
                      \<and> Country_loc (Locations (LocatedResources geolocation ! 0) ! 0) \<noteq> []"
  shows "Ip (fst (EnrichIP env e ip)) = ip
       \<and> Abuse (fst (EnrichIP env e ip)) \<noteq> []
       \<and> Prefix (fst (EnrichIP env e ip)) \<noteq> []
       \<and> Asn (fst (EnrichIP env e ip)) \<noteq> []
       \<and> Holder (fst (EnrichIP env e ip)) \<noteq> []
       \<and> City (fst (EnrichIP env e ip)) \<noteq> []
       \<and> Country (fst (EnrichIP env e ip)) \<noteq> []"
proof -
  have abuse: "Abuse (fst (EnrichIP env e ip)) \<noteq> []"
  proof (cases "GetAbuseContacts env ip")
    case (Inl err)
    then show ?thesis by (simp add: EnrichIP_Abuse enrichAbuseFromIP_result)
  next
    case (Inr cs)
    show ?thesis
    proof (cases "cs = []")
      case False
      then have "Join cs '';'' \<noteq> []"
        using contacts Inr by (simp add: Join_nonempty)
      then show ?thesis
        using Inr False by (simp add: EnrichIP_Abuse enrichAbuseFromIP_result)
    next
      case True
      let ?w = "fst (whoisEnrichmentIP env ip)"
      have "?w \<noteq> [] \<Longrightarrow> Join ?w '';'' \<noteq> []"
        using whoisEnrichmentIP_nonempty_entries [of env ip] by (simp add: Join_nonempty)
      then show ?thesis
        using Inr True
        by (auto simp: EnrichIP_Abuse enrichAbuseFromIP_result NewEnricher_def)
    qed
  qed
  have net: "Prefix (fst (EnrichIP env e ip)) \<noteq> []" "Asn (fst (EnrichIP env e ip)) \<noteq> []"
    using network
    by (auto simp: EnrichIP_Prefix enrichPrefixAndASNFromIP_result
        split: sum.splits list.splits)
  have hold: "Holder (fst (EnrichIP env e ip)) \<noteq> []"
    using holder
    by (auto simp: EnrichIP_Holder enrichHolderFromASN_result split: sum.splits)
  have geo: "fst (fst (enrichCityAndCountryFromPrefix env p)) \<noteq> []
           \<and> snd (fst (enrichCityAndCountryFromPrefix env p)) \<noteq> []" for p
  proof (cases "GetGeolocationData env p")
    case (Inl err)
    then show ?thesis by (simp add: enrichCityAndCountryFromPrefix_result)
  next
    case (Inr g)
    show ?thesis
      using location [rule_format, of p g] Inr
      by (auto simp: enrichCityAndCountryFromPrefix_result split: list.splits)
  qed
  show ?thesis
    using abuse net hold geo by (simp add: EnrichIP_City EnrichIP_Ip)
qed

theorem fields_populated_witness:
  "GetAbuseContacts primarySilent ''203.0.113.5'' = Inr []
   \<and> GetNetworkInfo primarySilent ''203.0.113.5'' =
       Inr \<lparr>Prefix_ni = ''203.0.113.0/24'', ASNs = [''64500'']\<rparr>
   \<and> GetASOverview primarySilent ''64500'' = Inr \<lparr>Holder_as = ''EXAMPLE-NET''\<rparr>
   \<and> GetGeolocationData primarySilent ''203.0.113.0/24'' = Inr \<lparr>LocatedResources =
         [\<lparr>Locations = [\<lparr>City_loc = ''Rotterdam'', Country_loc = ''NL''\<rparr>]\<rparr>]\<rparr>
   \<and> fst (EnrichIP primarySilent (NewEnricher ''203.0.113.5'') ''203.0.113.5'') =
       \<lparr>Ip = ''203.0.113.5'', Abuse = ''ops@example.com'', Abuse_source = ''whois'',
        Prefix = ''203.0.113.0/24'', Asn = ''64500'', Holder = ''EXAMPLE-NET'',
        City = ''Rotterdam'', Country = ''NL''\<rparr>
   \<and> Abuse (fst (EnrichIP primarySilent (NewEnricher ''203.0.113.5'') ''203.0.113.5'')) \<noteq> []
   \<and> Prefix (fst (EnrichIP primarySilent (NewEnricher ''203.0.113.5'') ''203.0.113.5'')) \<noteq> []
   \<and> Asn (fst (EnrichIP primarySilent (NewEnricher ''203.0.113.5'') ''203.0.113.5'')) \<noteq> []
   \<and> Holder (fst (EnrichIP primarySilent (NewEnricher ''203.0.113.5'') ''203.0.113.5'')) \<noteq> []
   \<and> City (fst (EnrichIP primarySilent (NewEnricher ''203.0.113.5'') ''203.0.113.5'')) \<noteq> []
   \<and> Country (fst (EnrichIP primarySilent (NewEnricher ''203.0.113.5'') ''203.0.113.5'')) \<noteq> []"
proof -
  have c: "\<forall>contacts. GetAbuseContacts primarySilent ''203.0.113.5'' = Inr contacts \<longrightarrow>
             [] \<notin> set contacts"
    by (auto simp: primarySilent_def)
  have n: "\<forall>netInfo. GetNetworkInfo primarySilent ''203.0.113.5'' = Inr netInfo \<longrightarrow>
             Prefix_ni netInfo \<noteq> [] \<and> (ASNs netInfo \<noteq> [] \<longrightarrow> ASNs netInfo ! 0 \<noteq> [])"
    by (auto simp: primarySilent_def scenario_def)
  have h: "\<forall>asn asOverview. GetASOverview primarySilent asn = Inr asOverview \<longrightarrow>
             Holder_as asOverview \<noteq> []"
    by (auto simp: primarySilent_def scenario_def)
  have g: "\<forall>prefix geolocation.
             GetGeolocationData primarySilent prefix = Inr geolocation
             \<and> LocatedResources geolocation \<noteq> []
             \<and> Locations (LocatedResources geolocation ! 0) \<noteq> [] \<longrightarrow>
             City_loc (Locations (LocatedResources geolocation ! 0) ! 0) \<noteq> []
             \<and> Country_loc (Locations (LocatedResources geolocation ! 0) ! 0) \<noteq> []"
    by (auto simp: primarySilent_def scenario_def)
  have r: "fst (EnrichIP primarySilent (NewEnricher ''203.0.113.5'') ''203.0.113.5'') =
       \<lparr>Ip = ''203.0.113.5'', Abuse = ''ops@example.com'', Abuse_source = ''whois'',
        Prefix = ''203.0.113.0/24'', Asn = ''64500'', Holder = ''EXAMPLE-NET'',
        City = ''Rotterdam'', Country = ''NL''\<rparr>"
    unfolding primarySilent_def scenario_def NewEnricher_def by code_simp
  have a: "GetAbuseContacts primarySilent ''203.0.113.5'' = Inr []"
    "GetNetworkInfo primarySilent ''203.0.113.5'' =
       Inr \<lparr>Prefix_ni = ''203.0.113.0/24'', ASNs = [''64500'']\<rparr>"
    "GetASOverview primarySilent ''64500'' = Inr \<lparr>Holder_as = ''EXAMPLE-NET''\<rparr>"
    "GetGeolocationData primarySilent ''203.0.113.0/24'' = Inr \<lparr>LocatedResources =
         [\<lparr>Locations = [\<lparr>City_loc = ''Rotterdam'', Country_loc = ''NL''\<rparr>]\<rparr>]\<rparr>"
    by (simp_all add: primarySilent_def scenario_def)
  show ?thesis
    using fields_populated [OF c n h g, of "NewEnricher ''203.0.113.5''"] a r
    by blast
qed

subsection \<open>C3: sorted extraction\<close>

text \<open>
  Claim C3: for every whois text the extraction returns the ascending sorted sequence
  of the distinct lower-cased matches of the pattern. The result does not depend on the
  order in which the runtime walks the map, and two texts with the same set of matches,
  in whatever order they occur, give the same result.
\<close>

theorem whois_extraction_sorted:
  assumes "Whois env ip = Inr whoisInfo"
  shows "fst (whoisEnrichmentIP env ip) =
           sorted_list_of_set (ToLower ` set (FindAllString whoisRegexp whoisInfo))
       \<and> sorted (fst (whoisEnrichmentIP env ip))
       \<and> distinct (fst (whoisEnrichmentIP env ip))
       \<and> set (fst (whoisEnrichmentIP env ip)) = ToLower ` set (FindAllString whoisRegexp whoisInfo)
       \<and> (\<forall>order. fst (whoisEnrichmentIP (env\<lparr>rangeOrder := order\<rparr>) ip) =
                   fst (whoisEnrichmentIP env ip))
       \<and> (\<forall>env' ip' whoisInfo'.
             Whois env' ip' = Inr whoisInfo' \<and>
             set (FindAllString whoisRegexp whoisInfo') = set (FindAllString whoisRegexp whoisInfo)
             \<longrightarrow> fst (whoisEnrichmentIP env' ip') = fst (whoisEnrichmentIP env ip))"
proof -
  have eq: "fst (whoisEnrichmentIP env ip) =
            sorted_list_of_set (ToLower ` set (FindAllString whoisRegexp whoisInfo))"
    using assms by (rule whoisEnrichmentIP_sorted_set)
  have other: "fst (whoisEnrichmentIP env' ip') = fst (whoisEnrichmentIP env ip)"
    if "Whois env' ip' = Inr whoisInfo'"
      and "set (FindAllString whoisRegexp whoisInfo') = set (FindAllString whoisRegexp whoisInfo)"
    for env' ip' whoisInfo'
    using whoisEnrichmentIP_sorted_set [OF that(1)] that(2) eq by simp
  show ?thesis
    using eq other by (auto simp: whoisEnrichmentIP_rangeOrder)
qed

theorem whois_extraction_sorted_witness:
  "Whois whoisZetaAlpha ''203.0.113.5'' = Inr ''zeta@x.com alpha@x.com''
   \<and> Whois whoisAlphaZeta ''203.0.113.5'' = Inr ''alpha@x.com zeta@x.com''
   \<and> FindAllString whoisRegexp ''zeta@x.com alpha@x.com'' = [''zeta@x.com'', ''alpha@x.com'']
   \<and> FindAllString whoisRegexp ''alpha@x.com zeta@x.com'' = [''alpha@x.com'', ''zeta@x.com'']
   \<and> fst (whoisEnrichmentIP whoisZetaAlpha ''203.0.113.5'') = [''alpha@x.com'', ''zeta@x.com'']
   \<and> fst (whoisEnrichmentIP whoisAlphaZeta ''203.0.113.5'') = [''alpha@x.com'', ''zeta@x.com'']"
proof -
  have h: "Whois whoisZetaAlpha ''203.0.113.5'' = Inr ''zeta@x.com alpha@x.com''"
    by (simp add: whoisZetaAlpha_def)
  have h': "Whois whoisAlphaZeta ''203.0.113.5'' = Inr ''alpha@x.com zeta@x.com''"
    by (simp add: whoisAlphaZeta_def)
  have f: "FindAllString whoisRegexp ''zeta@x.com alpha@x.com'' = [''zeta@x.com'', ''alpha@x.com'']"
    by code_simp
  have f': "FindAllString whoisRegexp ''alpha@x.com zeta@x.com'' = [''alpha@x.com'', ''zeta@x.com'']"
    by code_simp
  have v: "sorted_list_of_set (ToLower ` set [''zeta@x.com'', ''alpha@x.com'']) =
           [''alpha@x.com'', ''zeta@x.com'']"
    by code_simp
  have s: "set (FindAllString whoisRegexp ''alpha@x.com zeta@x.com'') =
           set (FindAllString whoisRegexp ''zeta@x.com alpha@x.com'')"
    unfolding f f' by (simp add: insert_commute)
  note t = whois_extraction_sorted [OF h]
  have a: "fst (whoisEnrichmentIP whoisZetaAlpha ''203.0.113.5'') = [''alpha@x.com'', ''zeta@x.com'']"
    using t f v by simp
  have b: "fst (whoisEnrichmentIP whoisAlphaZeta ''203.0.113.5'') =
           fst (whoisEnrichmentIP whoisZetaAlpha ''203.0.113.5'')"
    using t h' s by blast
  show ?thesis
    using h h' f f' a b by simp
qed

subsection \<open>C4: deduplicated extraction\<close>

text \<open>
  Claim C4: for every whois text, the lower-cased form of every match occurs exactly
  once in the extraction result, however often and in whichever letter-cases the
  address occurs in the text; the result has no duplicates.
\<close>

theorem whois_extraction_dedup:
  assumes "Whois env ip = Inr whoisInfo"
      and "a \<in> set (FindAllString whoisRegexp whoisInfo)"
  shows "count_list (fst (whoisEnrichmentIP env ip)) (ToLower a) = 1
       \<and> distinct (fst (whoisEnrichmentIP env ip))"
proof -
  have "fst (whoisEnrichmentIP env ip) =
        sorted_list_of_set (ToLower ` set (FindAllString whoisRegexp whoisInfo))"
    using assms(1) by (rule whoisEnrichmentIP_sorted_set)
  then have "distinct (fst (whoisEnrichmentIP env ip))"
    and "ToLower a \<in> set (fst (whoisEnrichmentIP env ip))"
    using assms(2) by simp_all
  then show ?thesis by (simp add: count_list_distinct)
qed

theorem whois_extraction_dedup_witness:
  "Whois whoisTwoSpellings ''203.0.113.5'' = Inr ''Foo@Bar.com and foo@bar.com''
   \<and> FindAllString whoisRegexp ''Foo@Bar.com and foo@bar.com'' = [''Foo@Bar.com'', ''foo@bar.com'']
   \<and> ToLower ''Foo@Bar.com'' = ''foo@bar.com''
   \<and> count_list (fst (whoisEnrichmentIP whoisTwoSpellings ''203.0.113.5'')) ''foo@bar.com'' = 1
   \<and> fst (whoisEnrichmentIP whoisTwoSpellings ''203.0.113.5'') = [''foo@bar.com'']"
proof -
  have h: "Whois whoisTwoSpellings ''203.0.113.5'' = Inr ''Foo@Bar.com and foo@bar.com''"
    by (simp add: whoisTwoSpellings_def primarySilent_def)
  have f: "FindAllString whoisRegexp ''Foo@Bar.com and foo@bar.com'' =
           [''Foo@Bar.com'', ''foo@bar.com'']"
    by code_simp
  have m: "''Foo@Bar.com'' \<in> set (FindAllString whoisRegexp ''Foo@Bar.com and foo@bar.com'')"
    unfolding f by simp
  have l: "ToLower ''Foo@Bar.com'' = ''foo@bar.com''"
    by code_simp
  have v: "fst (whoisEnrichmentIP whoisTwoSpellings ''203.0.113.5'') = [''foo@bar.com'']"
    unfolding whoisTwoSpellings_def primarySilent_def scenario_def by code_simp
  show ?thesis
    using whois_extraction_dedup [OF h m] h f l v by simp
qed

subsection \<open>C5: primary contacts win\<close>

text \<open>
  Claim C5: when the primary abuse-contact lookup succeeds with a non-empty list, the
  record has \<open>abuse\<close> equal to those contacts joined by \<open>;\<close>, as they came, and
  \<open>abuseSource = "ripeSTAT"\<close>, and no whois call is made.
\<close>

theorem primary_contacts_suppress_whois:
  assumes "GetAbuseContacts env ip = Inr contacts" and "contacts \<noteq> []"
  shows "Abuse (fst (EnrichIP env e ip)) = Join contacts '';''
       \<and> Abuse_source (fst (EnrichIP env e ip)) = ''ripeSTAT''
       \<and> (\<forall>a. CallWhois a \<notin> set (snd (EnrichIP env e ip)))"
  using assms
  by (simp add: EnrichIP_Abuse EnrichIP_calls enrichAbuseFromIP_result enrichAbuseFromIP_calls
      enrichPrefixAndASNFromIP_calls enrichHolderFromASN_calls
      enrichCityAndCountryFromPrefix_calls)

theorem primary_contacts_suppress_whois_witness:
  "GetAbuseContacts primaryVerbatim ''203.0.113.5'' =
     Inr [''Noc@B.example'', ''abuse@a.example'', ''Noc@B.example'']
   \<and> [''Noc@B.example'', ''abuse@a.example'', ''Noc@B.example''] \<noteq> []
   \<and> Abuse (fst (EnrichIP primaryVerbatim (NewEnricher ''203.0.113.5'') ''203.0.113.5''))
      = ''Noc@B.example;abuse@a.example;Noc@B.example''
   \<and> Abuse_source (fst (EnrichIP primaryVerbatim (NewEnricher ''203.0.113.5'') ''203.0.113.5''))
      = ''ripeSTAT''
   \<and> CallWhois ''203.0.113.5''
      \<notin> set (snd (EnrichIP primaryVerbatim (NewEnricher ''203.0.113.5'') ''203.0.113.5''))"
proof -
  let ?cs = "[''Noc@B.example'', ''abuse@a.example'', ''Noc@B.example'']"
  have h1: "GetAbuseContacts primaryVerbatim ''203.0.113.5'' = Inr ?cs"
    by (simp add: primaryVerbatim_def)
  have h2: "?cs \<noteq> []" by simp
  have j: "Join ?cs '';'' = ''Noc@B.example;abuse@a.example;Noc@B.example''" by simp
  show ?thesis
    using primary_contacts_suppress_whois [OF h1 h2, of "NewEnricher ''203.0.113.5''"] h1 j
    by simp
qed

subsection \<open>C6: prefix and ASN\<close>

text \<open>
  Claim C6 says that when the network-info lookup succeeds without ASNs, \<open>prefix\<close> is
  taken from the response if present and is \<open>"unknown"\<close> otherwise. The sentinel for
  the prefix is used on failure only: an answer without prefix and ASN gives the empty
  \<open>prefix\<close>, not \<open>"unknown"\<close>.
\<close>

theorem prefix_absent_counterexample:
  "GetNetworkInfo networkBlank ''203.0.113.5'' = Inr \<lparr>Prefix_ni = '''', ASNs = []\<rparr>
   \<and> Asn (fst (EnrichIP networkBlank (NewEnricher ''203.0.113.5'') ''203.0.113.5'')) = ''unknown''
   \<and> Prefix (fst (EnrichIP networkBlank (NewEnricher ''203.0.113.5'') ''203.0.113.5'')) = ''''
   \<and> Prefix (fst (EnrichIP networkBlank (NewEnricher ''203.0.113.5'') ''203.0.113.5''))
       \<noteq> ''unknown''"
  unfolding networkBlank_def scenario_def NewEnricher_def by code_simp

text \<open>
  Claim C6, as the code has it: if the network-info lookup fails, \<open>prefix\<close> and \<open>asn\<close>
  are both \<open>"unknown"\<close>; if it succeeds, \<open>prefix\<close> is the prefix of the response as it
  is (also when that is empty), and \<open>asn\<close> is \<open>"unknown"\<close> when the response has no ASN
  and the first ASN in the order of the response otherwise.
\<close>

theorem network_resolution:
  "(GetNetworkInfo env ip = Inl err \<longrightarrow>
      Prefix (fst (EnrichIP env e ip)) = ''unknown'' \<and> Asn (fst (EnrichIP env e ip)) = ''unknown'')
   \<and> (GetNetworkInfo env ip = Inr netInfo \<and> ASNs netInfo = [] \<longrightarrow>
      Prefix (fst (EnrichIP env e ip)) = Prefix_ni netInfo
      \<and> Asn (fst (EnrichIP env e ip)) = ''unknown'')
   \<and> (GetNetworkInfo env ip = Inr netInfo \<and> ASNs netInfo = asn # others \<longrightarrow>
      Prefix (fst (EnrichIP env e ip)) = Prefix_ni netInfo
      \<and> Asn (fst (EnrichIP env e ip)) = asn)"
  by (simp add: EnrichIP_Prefix enrichPrefixAndASNFromIP_result)

theorem network_resolution_witness:
  "GetNetworkInfo networkDown ''203.0.113.5'' = Inl (Error ''timeout'')
   \<and> Prefix (fst (EnrichIP networkDown (NewEnricher ''203.0.113.5'') ''203.0.113.5'')) = ''unknown''
   \<and> Asn (fst (EnrichIP networkDown (NewEnricher ''203.0.113.5'') ''203.0.113.5'')) = ''unknown''
   \<and> GetNetworkInfo networkNoASN ''203.0.113.5'' = Inr \<lparr>Prefix_ni = ''203.0.113.0/24'', ASNs = []\<rparr>
   \<and> Prefix (fst (EnrichIP networkNoASN (NewEnricher ''203.0.113.5'') ''203.0.113.5''))
       = ''203.0.113.0/24''
   \<and> Asn (fst (EnrichIP networkNoASN (NewEnricher ''203.0.113.5'') ''203.0.113.5'')) = ''unknown''
   \<and> GetNetworkInfo networkTwoASNs ''203.0.113.5''
       = Inr \<lparr>Prefix_ni = ''203.0.113.0/24'', ASNs = [''64500'', ''64496'']\<rparr>
   \<and> Prefix (fst (EnrichIP networkTwoASNs (NewEnricher ''203.0.113.5'') ''203.0.113.5''))
       = ''203.0.113.0/24''
   \<and> Asn (fst (EnrichIP networkTwoASNs (NewEnricher ''203.0.113.5'') ''203.0.113.5'')) = ''64500''"
proof -
  have d: "GetNetworkInfo networkDown ''203.0.113.5'' = Inl (Error ''timeout'')"
    by (simp add: networkDown_def)
  have n: "GetNetworkInfo networkNoASN ''203.0.113.5'' =
           Inr \<lparr>Prefix_ni = ''203.0.113.0/24'', ASNs = []\<rparr>"
    by (simp add: networkNoASN_def)
  have t: "GetNetworkInfo networkTwoASNs ''203.0.113.5'' =
           Inr \<lparr>Prefix_ni = ''203.0.113.0/24'', ASNs = [''64500'', ''64496'']\<rparr>"
    by (simp add: networkTwoASNs_def)
  show ?thesis
    using network_resolution [of networkDown "''203.0.113.5''" "Error ''timeout''"
        "NewEnricher ''203.0.113.5''"]
      network_resolution [of networkNoASN "''203.0.113.5''" _ "NewEnricher ''203.0.113.5''"
        "\<lparr>Prefix_ni = ''203.0.113.0/24'', ASNs = []\<rparr>"]
      network_resolution [of networkTwoASNs "''203.0.113.5''" _ "NewEnricher ''203.0.113.5''"
        "\<lparr>Prefix_ni = ''203.0.113.0/24'', ASNs = [''64500'', ''64496'']\<rparr>" "''64500''"
        "[''64496'']"]
      d n t
    by simp
qed

subsection \<open>C7: holder short-circuit\<close>

text \<open>
  Claim C7: in every run in which network resolution yields \<open>asn = "unknown"\<close>, the
  record has \<open>holder = "unknown"\<close>, no AS-overview call is made, and the whole result is
  the same whatever the AS-overview collaborator would answer.
\<close>

theorem holder_short_circuit:
  assumes "Asn (fst (EnrichIP env e ip)) = ''unknown''"
  shows "Holder (fst (EnrichIP env e ip)) = ''unknown''
       \<and> (\<forall>a. CallGetASOverview a \<notin> set (snd (EnrichIP env e ip)))
       \<and> (\<forall>f. EnrichIP (env\<lparr>GetASOverview := f\<rparr>) e ip = EnrichIP env e ip)"
proof -
  have a: "snd (fst (enrichPrefixAndASNFromIP env ip)) = ''unknown''"
    using assms by (simp add: EnrichIP_Prefix)
  have "Holder (fst (EnrichIP env e ip)) = ''unknown''"
    by (simp add: EnrichIP_Holder a enrichHolderFromASN_result)
  moreover have "\<forall>a. CallGetASOverview a \<notin> set (snd (EnrichIP env e ip))"
    by (auto simp: EnrichIP_calls a enrichAbuseFromIP_calls enrichPrefixAndASNFromIP_calls
        enrichHolderFromASN_calls enrichCityAndCountryFromPrefix_calls split: sum.splits)
  moreover have "EnrichIP (env\<lparr>GetASOverview := f\<rparr>) e ip = EnrichIP env e ip" for f
    by (simp add: EnrichIP_steps steps_ignore_GetASOverview a)
  ultimately show ?thesis by blast
qed

theorem holder_short_circuit_witness:
  "Asn (fst (EnrichIP networkNoASN (NewEnricher ''203.0.113.5'') ''203.0.113.5'')) = ''unknown''
   \<and> Holder (fst (EnrichIP networkNoASN (NewEnricher ''203.0.113.5'') ''203.0.113.5'')) = ''unknown''
   \<and> snd (EnrichIP networkNoASN (NewEnricher ''203.0.113.5'') ''203.0.113.5'') =
       [CallGetAbuseContacts ''203.0.113.5'', CallGetNetworkInfo ''203.0.113.5'',
        CallGetGeolocationData ''203.0.113.0/24'']
   \<and> EnrichIP (networkNoASN\<lparr>GetASOverview := \<lambda>asn. Inr \<lparr>Holder_as = ''OTHER-NET''\<rparr>\<rparr>)
         (NewEnricher ''203.0.113.5'') ''203.0.113.5''
       = EnrichIP networkNoASN (NewEnricher ''203.0.113.5'') ''203.0.113.5''"
proof -
  have h: "Asn (fst (EnrichIP networkNoASN (NewEnricher ''203.0.113.5'') ''203.0.113.5''))
           = ''unknown''"
    unfolding networkNoASN_def scenario_def NewEnricher_def by code_simp
  have c: "snd (EnrichIP networkNoASN (NewEnricher ''203.0.113.5'') ''203.0.113.5'') =
       [CallGetAbuseContacts ''203.0.113.5'', CallGetNetworkInfo ''203.0.113.5'',
        CallGetGeolocationData ''203.0.113.0/24'']"
    unfolding networkNoASN_def scenario_def NewEnricher_def by code_simp
  show ?thesis
    using holder_short_circuit [OF h] h c by simp
qed

subsection \<open>C8: geolocation short-circuit\<close>

text \<open>
  Claim C8: in every run in which network resolution yields \<open>prefix = "unknown"\<close>, the
  record has \<open>city = country = "unknown"\<close>, no geolocation call is made, and the whole
  result is the same whatever the geolocation collaborator would answer.
\<close>

theorem geolocation_short_circuit:
  assumes "Prefix (fst (EnrichIP env e ip)) = ''unknown''"
  shows "City (fst (EnrichIP env e ip)) = ''unknown''
       \<and> Country (fst (EnrichIP env e ip)) = ''unknown''
       \<and> (\<forall>p. CallGetGeolocationData p \<notin> set (snd (EnrichIP env e ip)))
       \<and> (\<forall>f. EnrichIP (env\<lparr>GetGeolocationData := f\<rparr>) e ip = EnrichIP env e ip)"
proof -
  have p: "fst (fst (enrichPrefixAndASNFromIP env ip)) = ''unknown''"
    using assms by (simp add: EnrichIP_Prefix)
  have "City (fst (EnrichIP env e ip)) = ''unknown''"
    and "Country (fst (EnrichIP env e ip)) = ''unknown''"
    by (simp_all add: EnrichIP_City p enrichCityAndCountryFromPrefix_result)
  moreover have "\<forall>p. CallGetGeolocationData p \<notin> set (snd (EnrichIP env e ip))"
    by (auto simp: EnrichIP_calls p enrichAbuseFromIP_calls enrichPrefixAndASNFromIP_calls
        enrichHolderFromASN_calls enrichCityAndCountryFromPrefix_calls split: sum.splits)
  moreover have "EnrichIP (env\<lparr>GetGeolocationData := f\<rparr>) e ip = EnrichIP env e ip" for f
    by (simp add: EnrichIP_steps steps_ignore_GetGeolocationData p)
  ultimately show ?thesis by blast
qed

theorem geolocation_short_circuit_witness:
  "Prefix (fst (EnrichIP networkDown (NewEnricher ''203.0.113.5'') ''203.0.113.5'')) = ''unknown''
   \<and> City (fst (EnrichIP networkDown (NewEnricher ''203.0.113.5'') ''203.0.113.5'')) = ''unknown''
   \<and> Country (fst (EnrichIP networkDown (NewEnricher ''203.0.113.5'') ''203.0.113.5'')) = ''unknown''
   \<and> snd (EnrichIP networkDown (NewEnricher ''203.0.113.5'') ''203.0.113.5'') =
       [CallGetAbuseContacts ''203.0.113.5'', CallGetNetworkInfo ''203.0.113.5'']"
proof -
  have h: "Prefix (fst (EnrichIP networkDown (NewEnricher ''203.0.113.5'') ''203.0.113.5''))
           = ''unknown''"
    unfolding networkDown_def scenario_def NewEnricher_def by code_simp
  have c: "snd (EnrichIP networkDown (NewEnricher ''203.0.113.5'') ''203.0.113.5'') =
       [CallGetAbuseContacts ''203.0.113.5'', CallGetNetworkInfo ''203.0.113.5'']"
    unfolding networkDown_def scenario_def NewEnricher_def by code_simp
  show ?thesis
    using geolocation_short_circuit [OF h] h c by simp
qed

subsection \<open>C9: first location wins\<close>

text \<open>
  Claim C9: for every prefix that is queried for geolocation (any prefix other than
  \<open>"unknown"\<close>), city and country are both \<open>"unknown"\<close> if the lookup fails, if the
  response has no located resource, or if its first located resource has no location;
  otherwise they are those of the first location of the first located resource, the
  other resources and locations playing no part. The collaborator is called once.
\<close>

theorem geolocation_first_wins:
  assumes "prefix \<noteq> ''unknown''"
  shows "enrichCityAndCountryFromPrefix env prefix =
         ((case GetGeolocationData env prefix of
             Inl err \<Rightarrow> (''unknown'', ''unknown'')
           | Inr geolocation \<Rightarrow>
               (case LocatedResources geolocation of
                  [] \<Rightarrow> (''unknown'', ''unknown'')
                | resource # otherResources \<Rightarrow>
                    (case Locations resource of
                       [] \<Rightarrow> (''unknown'', ''unknown'')
                     | location # otherLocations \<Rightarrow>
                         (City_loc location, Country_loc location)))),
          [CallGetGeolocationData prefix])"
  using assms enrichCityAndCountryFromPrefix_result [of env prefix]
    enrichCityAndCountryFromPrefix_calls [of env prefix]
  by (simp add: prod_eq_iff)

theorem geolocation_first_wins_witness:
  "''203.0.113.0/24'' \<noteq> ''unknown''
   \<and> enrichCityAndCountryFromPrefix geoMany ''203.0.113.0/24'' =
       ((''Rotterdam'', ''NL''), [CallGetGeolocationData ''203.0.113.0/24''])
   \<and> enrichCityAndCountryFromPrefix geoDown ''203.0.113.0/24'' =
       ((''unknown'', ''unknown''), [CallGetGeolocationData ''203.0.113.0/24''])
   \<and> City (fst (EnrichIP geoMany (NewEnricher ''203.0.113.5'') ''203.0.113.5'')) = ''Rotterdam''
   \<and> Country (fst (EnrichIP geoMany (NewEnricher ''203.0.113.5'') ''203.0.113.5'')) = ''NL''"
proof -
  have h: "''203.0.113.0/24'' \<noteq> ''unknown''" by simp
  have r: "City (fst (EnrichIP geoMany (NewEnricher ''203.0.113.5'') ''203.0.113.5''))
           = ''Rotterdam''"
    "Country (fst (EnrichIP geoMany (NewEnricher ''203.0.113.5'') ''203.0.113.5'')) = ''NL''"
    unfolding geoMany_def scenario_def NewEnricher_def by code_simp+
  show ?thesis
    using geolocation_first_wins [OF h, of geoMany] geolocation_first_wins [OF h, of geoDown] r
    by (simp add: geoMany_def geoDown_def)
qed

subsection \<open>C10: the single-match fast path\<close>

text \<open>
  Claim C10: for every whois text in which the pattern finds exactly one match, the
  fast path of \<open>whoisEnrichmentIP\<close> returns what the general path (lower-case, collect
  in a map, sort) returns on that list of matches: the lower-cased match alone.
\<close>

theorem single_match_fast_path:
  assumes "Whois env ip = Inr whoisInfo"
      and "length (FindAllString whoisRegexp whoisInfo) = 1"
  shows "fst (whoisEnrichmentIP env ip) = [ToLower (FindAllString whoisRegexp whoisInfo ! 0)]
       \<and> lowerSortUnique env (FindAllString whoisRegexp whoisInfo) =
           [ToLower (FindAllString whoisRegexp whoisInfo ! 0)]"
  using whoisEnrichmentIP_result [OF assms(1)] assms(2)
    single_sorted_list [OF assms(2), of ToLower]
  by (auto simp: lowerSortUnique_eq Let_def)

theorem single_match_fast_path_witness:
  "Whois whoisSingle ''203.0.113.5'' = Inr ''OrgAbuseEmail:  Abuse@Example.NET''
   \<and> length (FindAllString whoisRegexp ''OrgAbuseEmail:  Abuse@Example.NET'') = 1
   \<and> fst (whoisEnrichmentIP whoisSingle ''203.0.113.5'') = [''abuse@example.net'']
   \<and> lowerSortUnique whoisSingle (FindAllString whoisRegexp ''OrgAbuseEmail:  Abuse@Example.NET'')
       = [''abuse@example.net'']"
proof -
  have h: "Whois whoisSingle ''203.0.113.5'' = Inr ''OrgAbuseEmail:  Abuse@Example.NET''"
    by (simp add: whoisSingle_def)
  have f: "FindAllString whoisRegexp ''OrgAbuseEmail:  Abuse@Example.NET'' = [''Abuse@Example.NET'']"
    by code_simp
  have n: "length (FindAllString whoisRegexp ''OrgAbuseEmail:  Abuse@Example.NET'') = 1"
    unfolding f by simp
  have l: "ToLower ''Abuse@Example.NET'' = ''abuse@example.net''"
    by code_simp
  show ?thesis
    using single_match_fast_path [OF h n] h n f l by simp
qed

end
